theory Spec2Isabelle
  imports Complex_Main "HOL-Library.Word"
begin

unbundle bit_operations_syntax

section \<open>The deterministic split assigner of heareval/tasks/util/luigi.py\<close>

subsection \<open>which\_set\<close>

text \<open>
  \<^verbatim>\<open>
  def which_set(filename_hash, validation_percentage, testing_percentage):
      percentage_hash = filename_hash % 100
      if percentage_hash < validation_percentage:
          result = "valid"
      elif percentage_hash < (testing_percentage + validation_percentage):
          result = "test"
      else:
          result = "train"
      return result
  \<close>
  \<open>which_set\<close> is the function on Python integers, hence \<open>int\<close>: nothing overflows.
  Python's \<open>%\<close> with the positive divisor 100 rounds towards minus infinity, as
  \<open>mod\<close> on \<open>int\<close> does, and the divisor is the constant 100, so the function has no
  raising branch on integers. \<open>which_set_num\<close> below is the same function on percentages
  that are Python ints or floats, where the sum can raise.
\<close>

definition which_set :: "int \<Rightarrow> int \<Rightarrow> int \<Rightarrow> string" where
  "which_set filename_hash validation_percentage testing_percentage =
     (let percentage_hash = filename_hash mod 100 in
      if percentage_hash < validation_percentage then ''valid''
      else if percentage_hash < (testing_percentage + validation_percentage) then ''test''
      else ''train'')"

subsection \<open>Python strings, bytes and exceptions\<close>

text \<open>
  A Python \<open>str\<close> is a sequence of Unicode code points, each in \<open>[0, 0x10FFFF]\<close>, lone
  surrogates included (a file name that is not valid UTF-8 reaches Python as a \<open>str\<close>
  with code points \<open>U+DC80..U+DCFF\<close>). The strings the functions receive (identifiers,
  file names, directories) are therefore lists of code points. The strings the code builds
  from ASCII characters alone (the three labels above and the hexadecimal digest) are
  \<open>string\<close>. \<open>str\<close> reads an ASCII literal as a list of code points.
\<close>

type_synonym pystr = "nat list"
type_synonym byte = "8 word"
type_synonym word32 = "32 word"

definition str :: "string \<Rightarrow> pystr" where
  "str s = map of_char s"

datatype error = UnicodeEncodeError | ValueError | OverflowError

subsection \<open>new\_basedir, with os.path.split and os.path.join of posixpath\<close>

text \<open>
  \<^verbatim>\<open>
  def new_basedir(filename, basedir):
      return os.path.join(basedir, os.path.split(filename)[1])
  \<close>
  \<open>os.path\<close> is \<open>posixpath\<close> (the separator is \<open>'/'\<close>), whose two functions are
  \<^verbatim>\<open>
  def split(p):
      i = p.rfind(sep) + 1
      head, tail = p[:i], p[i:]
      if head and head != sep*len(head):
          head = head.rstrip(sep)
      return head, tail

  def join(a, *p):
      path = a
      for b in p:
          if b.startswith(sep):
              path = b
          elif not path or path.endswith(sep):
              path += b
          else:
              path += sep + b
      return path
  \<close>
\<close>

definition sep :: nat where
  "sep = 47"

text \<open>\<open>p.rfind(c)\<close>: the highest index of \<open>c\<close> in \<open>p\<close>, or \<open>-1\<close>.\<close>

fun rfind :: "pystr \<Rightarrow> nat \<Rightarrow> int" where
  "rfind [] c = - 1"
| "rfind (x # xs) c =
     (let r = rfind xs c in if 0 \<le> r then r + 1 else if x = c then 0 else - 1)"

definition rstrip :: "pystr \<Rightarrow> nat \<Rightarrow> pystr" where
  "rstrip p c = rev (dropWhile (\<lambda>x. x = c) (rev p))"

definition startswith :: "pystr \<Rightarrow> nat \<Rightarrow> bool" where
  "startswith b c = (case b of [] \<Rightarrow> False | x # _ \<Rightarrow> x = c)"

definition endswith :: "pystr \<Rightarrow> nat \<Rightarrow> bool" where
  "endswith p c = (case rev p of [] \<Rightarrow> False | x # _ \<Rightarrow> x = c)"

definition path_split :: "pystr \<Rightarrow> pystr \<times> pystr" where
  "path_split p =
     (let i = nat (rfind p sep + 1); head = take i p; tail = drop i p in
      (if head \<noteq> [] \<and> head \<noteq> replicate (length head) sep then rstrip head sep else head,
       tail))"

definition join_step :: "pystr \<Rightarrow> pystr \<Rightarrow> pystr" where
  "join_step path b =
     (if startswith b sep then b
      else if path = [] \<or> endswith path sep then path @ b
      else path @ sep # b)"

definition path_join :: "pystr \<Rightarrow> pystr list \<Rightarrow> pystr" where
  "path_join a p = foldl join_step a p"

definition new_basedir :: "pystr \<Rightarrow> pystr \<Rightarrow> pystr" where
  "new_basedir filename basedir = path_join basedir [snd (path_split filename)]"


subsection \<open>filename\_to\_int\_hash\<close>

text \<open>
  \<^verbatim>\<open>
  def filename_to_int_hash(text):
      hash_name_hashed = hashlib.sha1(text.encode("utf-8")).hexdigest()
      return int(hash_name_hashed, 16)
  \<close>
  The four library steps are modelled in the order of the call: \<open>str.encode\<close>,
  \<open>hashlib.sha1\<close>, \<open>hexdigest\<close> and \<open>int\<close> with base 16.
\<close>

paragraph \<open>\<open>text.encode("utf-8")\<close>\<close>

text \<open>
  The codec runs with its default error handler \<open>strict\<close>: a code point below
  \<open>0x80\<close> is one byte, below \<open>0x800\<close> two, below \<open>0x10000\<close> three and above four;
  a surrogate (\<open>U+D800..U+DFFF\<close>) has no UTF-8 form and raises UnicodeEncodeError.
\<close>

definition is_surrogate :: "nat \<Rightarrow> bool" where
  "is_surrogate c = (0xD800 \<le> c \<and> c \<le> 0xDFFF)"

definition utf8_char :: "nat \<Rightarrow> error + byte list" where
  "utf8_char c =
     (if c < 0x80 then Inr [of_nat c]
      else if c < 0x800 then Inr [of_nat (0xC0 + c div 64), of_nat (0x80 + c mod 64)]
      else if is_surrogate c then Inl UnicodeEncodeError
      else if c < 0x10000 then
        Inr [of_nat (0xE0 + c div 4096), of_nat (0x80 + c div 64 mod 64),
             of_nat (0x80 + c mod 64)]
      else
        Inr [of_nat (0xF0 + c div 262144), of_nat (0x80 + c div 4096 mod 64),
             of_nat (0x80 + c div 64 mod 64), of_nat (0x80 + c mod 64)])"

fun encode_utf8 :: "pystr \<Rightarrow> error + byte list" where
  "encode_utf8 [] = Inr []"
| "encode_utf8 (c # cs) =
     (case utf8_char c of
        Inl e \<Rightarrow> Inl e
      | Inr bs \<Rightarrow> (case encode_utf8 cs of Inl e \<Rightarrow> Inl e | Inr rest \<Rightarrow> Inr (bs @ rest)))"

paragraph \<open>\<open>hashlib.sha1\<close>\<close>

text \<open>
  SHA-1 as in FIPS 180-4. The message is padded with the byte \<open>0x80\<close>, zero bytes up to
  56 modulo 64, and its length in bits as a 64-bit big-endian number. Each block of 64
  bytes is read as 16 big-endian words, extended to 80 words
  (\<open>W\<^sub>t = ROTL\<^sup>1 (W\<^bsub>t-3\<^esub> XOR W\<^bsub>t-8\<^esub> XOR W\<^bsub>t-14\<^esub> XOR W\<^bsub>t-16\<^esub>)\<close>; \<open>schedule\<close>
  keeps the last 16 words as its window), and run through 80 rounds on five 32-bit
  words whose additions wrap. The digest is the five words of the final state, big-endian:
  20 bytes.
\<close>

definition rotl :: "nat \<Rightarrow> word32 \<Rightarrow> word32" where
  "rotl n x = push_bit n x OR drop_bit (32 - n) x"

definition be64 :: "nat \<Rightarrow> byte list" where
  "be64 n = [of_nat (n div 2 ^ 56), of_nat (n div 2 ^ 48), of_nat (n div 2 ^ 40),
             of_nat (n div 2 ^ 32), of_nat (n div 2 ^ 24), of_nat (n div 2 ^ 16),
             of_nat (n div 2 ^ 8), of_nat n]"

definition sha1_pad :: "byte list \<Rightarrow> byte list" where
  "sha1_pad m =
     m @ [0x80] @ replicate ((119 - length m mod 64) mod 64) 0 @ be64 (8 * length m)"

fun words_of :: "byte list \<Rightarrow> word32 list" where
  "words_of (a # b # c # d # bs) =
     (push_bit 24 (ucast a) OR push_bit 16 (ucast b) OR push_bit 8 (ucast c) OR ucast d)
     # words_of bs"
| "words_of _ = []"

definition next_word :: "word32 list \<Rightarrow> word32" where
  "next_word w = rotl 1 (w ! 13 XOR w ! 8 XOR w ! 2 XOR w ! 0)"

fun schedule :: "nat \<Rightarrow> word32 list \<Rightarrow> word32 list" where
  "schedule 0 w = []"
| "schedule (Suc n) w = next_word w # schedule n (tl w @ [next_word w])"

definition expand :: "word32 list \<Rightarrow> word32 list" where
  "expand w = w @ schedule 64 w"

definition sha1_f :: "nat \<Rightarrow> word32 \<Rightarrow> word32 \<Rightarrow> word32 \<Rightarrow> word32" where
  "sha1_f i b c d =
     (if i < 20 then (b AND c) OR (NOT b AND d)
      else if i < 40 then b XOR c XOR d
      else if i < 60 then (b AND c) OR (b AND d) OR (c AND d)
      else b XOR c XOR d)"

definition sha1_k :: "nat \<Rightarrow> word32" where
  "sha1_k i =
     (if i < 20 then 0x5A827999 else if i < 40 then 0x6ED9EBA1
      else if i < 60 then 0x8F1BBCDC else 0xCA62C1D6)"

type_synonym sha1_state = "word32 \<times> word32 \<times> word32 \<times> word32 \<times> word32"

fun rounds :: "nat \<Rightarrow> word32 list \<Rightarrow> sha1_state \<Rightarrow> sha1_state" where
  "rounds i [] s = s"
| "rounds i (w # ws) (a, b, c, d, e) =
     rounds (i + 1) ws (rotl 5 a + sha1_f i b c d + e + sha1_k i + w, a, rotl 30 b, c, d)"

fun compress :: "sha1_state \<Rightarrow> byte list \<Rightarrow> sha1_state" where
  "compress (h0, h1, h2, h3, h4) block =
     (case rounds 0 (expand (words_of block)) (h0, h1, h2, h3, h4) of
        (a, b, c, d, e) \<Rightarrow> (h0 + a, h1 + b, h2 + c, h3 + d, h4 + e))"

function sha1_blocks :: "sha1_state \<Rightarrow> byte list \<Rightarrow> sha1_state" where
  "sha1_blocks h bs =
     (if length bs < 64 then h else sha1_blocks (compress h (take 64 bs)) (drop 64 bs))"
  by pat_completeness auto
termination
  by (relation "measure (\<lambda>(h, bs). length bs)") auto

declare sha1_blocks.simps [simp del]

definition bytes_of :: "word32 \<Rightarrow> byte list" where
  "bytes_of w = [ucast (drop_bit 24 w), ucast (drop_bit 16 w), ucast (drop_bit 8 w), ucast w]"

definition sha1_init :: sha1_state where
  "sha1_init = (0x67452301, 0xEFCDAB89, 0x98BADCFE, 0x10325476, 0xC3D2E1F0)"

definition sha1 :: "byte list \<Rightarrow> byte list" where
  "sha1 m =
     (case sha1_blocks sha1_init (sha1_pad m) of
        (h0, h1, h2, h3, h4) \<Rightarrow>
          bytes_of h0 @ bytes_of h1 @ bytes_of h2 @ bytes_of h3 @ bytes_of h4)"

paragraph \<open>\<open>hexdigest()\<close> and \<open>int(s, 16)\<close>\<close>

text \<open>
  \<open>hexdigest\<close> writes every byte of the digest as two lowercase hexadecimal digits
  (\<open>hex_char\<close> gives the digit of a value below 16: the characters from \<open>'0'\<close>, code 48,
  and from \<open>'a'\<close>, code 97; see \<open>hex_char_table\<close>).
  \<open>int_base16\<close> is \<open>int(s, 16)\<close> on strings of hexadecimal digits: the value of the
  digits, most significant first, and ValueError for the empty string and at a character
  that is no digit. (Python's \<open>int\<close> also reads a sign, a \<open>0x\<close> prefix, single
  underscores between digits and surrounding whitespace; a hexadecimal digest has none of
  them, see \<open>int_base16_hexdigest\<close> below, and they are left out of the model.)
\<close>

definition hex_char :: "nat \<Rightarrow> char" where
  "hex_char n = char_of (if n < 10 then 48 + n else 87 + n)"

definition hex_byte :: "byte \<Rightarrow> string" where
  "hex_byte b = [hex_char (unat b div 16), hex_char (unat b mod 16)]"

definition hexdigest :: "byte list \<Rightarrow> string" where
  "hexdigest bs = concat (map hex_byte bs)"

definition hex_digit :: "char \<Rightarrow> nat option" where
  "hex_digit c =
     (let n = (of_char c :: nat) in
      if 48 \<le> n \<and> n \<le> 57 then Some (n - 48)
      else if 97 \<le> n \<and> n \<le> 102 then Some (n - 87)
      else if 65 \<le> n \<and> n \<le> 70 then Some (n - 55)
      else None)"

fun int_digits :: "int \<Rightarrow> string \<Rightarrow> error + int" where
  "int_digits acc [] = Inr acc"
| "int_digits acc (c # cs) =
     (if hex_digit c = None then Inl ValueError
      else int_digits (acc * 16 + int (the (hex_digit c))) cs)"

definition int_base16 :: "string \<Rightarrow> error + int" where
  "int_base16 s = (if s = [] then Inl ValueError else int_digits 0 s)"

definition filename_to_int_hash :: "pystr \<Rightarrow> error + int" where
  "filename_to_int_hash text =
     (case encode_utf8 text of
        Inl e \<Rightarrow> Inl e
      | Inr bs \<Rightarrow> (let hash_name_hashed = hexdigest (sha1 bs) in int_base16 hash_name_hashed))"

subsection \<open>which\_set on int and float percentages\<close>

text \<open>
  A percentage is a Python int or a Python float. A float is an IEEE 754 binary64 value:
  a finite one is \<open>Finite m e\<close> with the value \<open>m * 2\<^sup>e\<close>, the others are the two
  infinities and NaN. (Zero has one representation per exponent and no sign: \<open>-0.0\<close>
  and \<open>0.0\<close> compare equal, and which\_set only compares.)
\<close>

datatype pyfloat = Finite int int | PosInf | NegInf | NaN

datatype pynum = PInt int | PFloat pyfloat

definition pow2 :: "int \<Rightarrow> rat" where
  "pow2 e = (if 0 \<le> e then 2 ^ nat e else 1 / 2 ^ nat (- e))"

definition float_value :: "int \<Rightarrow> int \<Rightarrow> rat" where
  "float_value m e = of_int m * pow2 e"

text \<open>
  Rounding to nearest, ties to even (IEEE 754, 4.3.1): a value of magnitude at least
  \<open>2\<^sup>1\<^sup>0\<^sup>2\<^sup>4 - 2\<^sup>9\<^sup>7\<^sup>0\<close> rounds to an infinity; any other value is rounded to a multiple of
  \<open>2\<^bsup>qe\<^esup>\<close>, where \<open>qe\<close> is 52 below the exponent of its leading bit and at least
  \<open>-1074\<close> (the subnormal range).
\<close>

definition double_overflow :: int where
  "double_overflow = 2 ^ 1024 - 2 ^ 970"

fun bit_length :: "nat \<Rightarrow> nat" where
  "bit_length n = (if n = 0 then 0 else Suc (bit_length (n div 2)))"

declare bit_length.simps [simp del]

definition round_half_even :: "int \<Rightarrow> nat \<Rightarrow> int" where
  "round_half_even m s =
     (let q = m div 2 ^ s; r = m mod 2 ^ s in
      if 2 ^ s < 2 * r \<or> (2 * r = 2 ^ s \<and> odd q) then q + 1 else q)"

definition round_double :: "int \<Rightarrow> int \<Rightarrow> pyfloat" where
  "round_double m e =
     (if of_int double_overflow \<le> float_value m e then PosInf
      else if float_value m e \<le> - of_int double_overflow then NegInf
      else
        (let qe = max (int (bit_length (nat \<bar>m\<bar>)) - 1 + e) (- 1022) - 52 in
         if qe \<le> e then Finite m e else Finite (round_half_even m (nat (qe - e))) qe))"

text \<open>
  The three operations of Python that which\_set applies to its percentages.
  \<open>float_of_int\<close> is the conversion of an int operand next to a float operand: it
  raises OverflowError (int too large to convert to float) when the rounded value is not
  finite. \<open>float_add\<close> is the sum of two floats, which never raises: it overflows to an
  infinity. \<open>int_lt\<close> is \<open>n < x\<close> for an int \<open>n\<close>: Python compares an int with a
  float by value, without converting, and every comparison with NaN is false.
\<close>

definition float_of_int :: "int \<Rightarrow> error + pyfloat" where
  "float_of_int n =
     (case round_double n 0 of
        PosInf \<Rightarrow> Inl OverflowError
      | NegInf \<Rightarrow> Inl OverflowError
      | f \<Rightarrow> Inr f)"

fun float_add :: "pyfloat \<Rightarrow> pyfloat \<Rightarrow> pyfloat" where
  "float_add (Finite m1 e1) (Finite m2 e2) =
     (let e = min e1 e2 in round_double (m1 * 2 ^ nat (e1 - e) + m2 * 2 ^ nat (e2 - e)) e)"
| "float_add NaN _ = NaN"
| "float_add _ NaN = NaN"
| "float_add PosInf NegInf = NaN"
| "float_add NegInf PosInf = NaN"
| "float_add PosInf _ = PosInf"
| "float_add _ PosInf = PosInf"
| "float_add NegInf _ = NegInf"
| "float_add _ NegInf = NegInf"

fun num_add :: "pynum \<Rightarrow> pynum \<Rightarrow> error + pynum" where
  "num_add (PInt a) (PInt b) = Inr (PInt (a + b))"
| "num_add (PFloat a) (PFloat b) = Inr (PFloat (float_add a b))"
| "num_add (PInt a) (PFloat b) =
     (case float_of_int a of Inl e \<Rightarrow> Inl e | Inr fa \<Rightarrow> Inr (PFloat (float_add fa b)))"
| "num_add (PFloat a) (PInt b) =
     (case float_of_int b of Inl e \<Rightarrow> Inl e | Inr fb \<Rightarrow> Inr (PFloat (float_add a fb)))"

fun int_lt :: "int \<Rightarrow> pynum \<Rightarrow> bool" where
  "int_lt n (PInt k) = (n < k)"
| "int_lt n (PFloat (Finite m e)) = (of_int n < float_value m e)"
| "int_lt n (PFloat PosInf) = True"
| "int_lt n (PFloat NegInf) = False"
| "int_lt n (PFloat NaN) = False"

definition which_set_num :: "int \<Rightarrow> pynum \<Rightarrow> pynum \<Rightarrow> error + string" where
  "which_set_num filename_hash validation_percentage testing_percentage =
     (let percentage_hash = filename_hash mod 100 in
      if int_lt percentage_hash validation_percentage then Inr ''valid''
      else
        (case num_add testing_percentage validation_percentage of
           Inl e \<Rightarrow> Inl e
         | Inr s \<Rightarrow> if int_lt percentage_hash s then Inr ''test'' else Inr ''train''))"

text \<open>
  The conditions the properties are stated with: an int converts to a float; the sum of
  two percentages converts no int that does not fit; a percentage is non-negative or
  negative (NaN is neither).
\<close>

definition fits_double :: "int \<Rightarrow> bool" where
  "fits_double n = (\<bar>n\<bar> < double_overflow)"

fun addable :: "pynum \<Rightarrow> pynum \<Rightarrow> bool" where
  "addable (PInt a) (PFloat b) = fits_double a"
| "addable (PFloat a) (PInt b) = fits_double b"
| "addable _ _ = True"

fun nonneg :: "pynum \<Rightarrow> bool" where
  "nonneg (PInt k) = (0 \<le> k)"
| "nonneg (PFloat (Finite m e)) = (0 \<le> m)"
| "nonneg (PFloat PosInf) = True"
| "nonneg (PFloat NegInf) = False"
| "nonneg (PFloat NaN) = False"

fun negative :: "pynum \<Rightarrow> bool" where
  "negative (PInt k) = (k < 0)"
| "negative (PFloat (Finite m e)) = (m < 0)"
| "negative (PFloat PosInf) = False"
| "negative (PFloat NegInf) = True"
| "negative (PFloat NaN) = False"

subsection \<open>Auxiliary definitions\<close>

text \<open>The value of a byte string read as a big-endian number.\<close>

fun be_int :: "int \<Rightarrow> byte list \<Rightarrow> int" where
  "be_int acc [] = acc"
| "be_int acc (b # bs) = be_int (acc * 256 + uint b) bs"

text \<open>
  \<open>norm32\<close> is the identity on words. Evaluation rewrites it on a numeral to that
  numeral reduced modulo \<open>2\<^sup>3\<^sup>2\<close>, which keeps the numerals of a hash computation short.
\<close>

definition norm32 :: "word32 \<Rightarrow> word32" where
  "norm32 x = x"

section \<open>Properties of which\_set\<close>

lemma bucket_range: "0 \<le> (d::int) mod 100 \<and> d mod 100 \<le> 99"
proof -
  have "0 \<le> d mod 100" by simp
  moreover have "d mod 100 < 100" by simp
  ultimately show ?thesis by linarith
qed



text \<open>
  C4. With both percentages 0, every integer digest is assigned to train.
\<close>

theorem which_set_zero_zero: "which_set d 0 0 = ''train''"
  using bucket_range [of d] by (simp add: which_set_def Let_def)

theorem which_set_zero_zero_witness:
  "which_set 12300 0 0 = ''train'' \<and> which_set (- 1) 0 0 = ''train''"
  using which_set_zero_zero [of 12300] which_set_zero_zero [of "- 1"] by simp

text \<open>
  C5. With both percentages 50, no integer digest is assigned to train: a bucket below 50
  gives valid, a bucket from 50 to 99 gives test.
\<close>

theorem which_set_fifty_fifty:
  "which_set d 50 50 \<noteq> ''train''
   \<and> (d mod 100 < 50 \<longrightarrow> which_set d 50 50 = ''valid'')
   \<and> (50 \<le> d mod 100 \<and> d mod 100 < 100 \<longrightarrow> which_set d 50 50 = ''test'')"
  using bucket_range [of d] by (auto simp add: which_set_def Let_def)

theorem which_set_fifty_fifty_witness:
  "which_set 49 50 50 = ''valid'' \<and> which_set 50 50 50 = ''test''
   \<and> which_set (- 1) 50 50 = ''test'' \<and> which_set 49 50 50 \<noteq> ''train''"
  using which_set_fifty_fifty [of 49] which_set_fifty_fifty [of 50]
    which_set_fifty_fifty [of "- 1"]
  by simp

text \<open>
  C7. With both percentages 10: a digest whose bucket is 45 is assigned to train, one
  whose bucket is 5 to valid and one whose bucket is 15 to test.
\<close>

theorem which_set_examples:
  "(d mod 100 = 45 \<longrightarrow> which_set d 10 10 = ''train'')
   \<and> (d mod 100 = 5 \<longrightarrow> which_set d 10 10 = ''valid'')
   \<and> (d mod 100 = 15 \<longrightarrow> which_set d 10 10 = ''test'')"
  by (simp add: which_set_def Let_def)

theorem which_set_examples_witness:
  "which_set 12345 10 10 = ''train'' \<and> which_set 705 10 10 = ''valid''
   \<and> which_set 15 10 10 = ''test''"
  using which_set_examples [of 12345] which_set_examples [of 705] which_set_examples [of 15]
  by simp

text \<open>
  C8. The testing percentage cannot influence a valid assignment: when the bucket is
  below the validation percentage, which\_set returns valid for every testing percentage,
  so any two testing percentages give the same result.
\<close>

theorem which_set_valid_ignores_testing:
  assumes "d mod 100 < v"
  shows "which_set d v t1 = ''valid'' \<and> which_set d v t2 = ''valid''
       \<and> which_set d v t1 = which_set d v t2"
  using assms by (simp add: which_set_def Let_def)

theorem which_set_valid_ignores_testing_witness:
  "which_set 12345 50 0 = ''valid'' \<and> which_set 12345 50 (- 70) = ''valid''
   \<and> which_set 12345 50 0 = which_set 12345 50 (- 70)"
proof -
  have h: "(12345::int) mod 100 < 50" by simp
  show ?thesis using which_set_valid_ignores_testing [OF h, of 0 "- 70"] by simp
qed

section \<open>Properties of which\_set on int and float percentages\<close>

lemma float_value_int: "float_value n 0 = of_int n"
  by (simp add: float_value_def pow2_def)

lemma float_of_int_overflow: "\<not> fits_double n \<Longrightarrow> float_of_int n = Inl OverflowError"
proof -
  assume "\<not> fits_double n"
  then have "double_overflow \<le> n \<or> n \<le> - double_overflow"
    by (auto simp: fits_double_def)
  then have "(of_int double_overflow :: rat) \<le> of_int n \<or> (of_int n :: rat) \<le> - of_int double_overflow"
    by (metis of_int_le_iff of_int_minus)
  then show ?thesis
    by (auto simp: float_of_int_def round_double_def float_value_int)
qed

lemma float_of_int_fits: "fits_double n \<Longrightarrow> \<exists>f. float_of_int n = Inr f"
proof -
  assume "fits_double n"
  then have "\<not> double_overflow \<le> n" and "\<not> n \<le> - double_overflow"
    by (auto simp: fits_double_def)
  then have "\<not> (of_int double_overflow :: rat) \<le> of_int n"
    and "\<not> (of_int n :: rat) \<le> - of_int double_overflow"
    by (metis of_int_le_iff of_int_minus)+
  then show ?thesis
    by (simp add: float_of_int_def round_double_def float_value_int Let_def)
qed

lemma num_add_addable: "addable t v \<Longrightarrow> \<exists>s. num_add t v = Inr s"
  by (cases t; cases v) (auto dest: float_of_int_fits)

lemma num_add_not_addable: "\<not> addable t v \<Longrightarrow> num_add t v = Inl OverflowError"
  by (cases t; cases v) (auto simp: float_of_int_overflow)

lemma which_set_num_int: "which_set_num d (PInt v) (PInt t) = Inr (which_set d v t)"
  by (simp add: which_set_num_def which_set_def Let_def)

lemma float_value_sign: "(float_value m e < 0) = (m < 0)"
  by (simp add: float_value_def pow2_def mult_less_0_iff)

lemma int_lt_negative: "0 \<le> n \<Longrightarrow> negative v \<Longrightarrow> \<not> int_lt n v"
proof (cases v)
  case (PInt k)
  assume "0 \<le> n" and "negative v"
  with PInt show ?thesis by simp
next
  case (PFloat f)
  assume n: "0 \<le> n" and neg: "negative v"
  show ?thesis
  proof (cases f)
    case (Finite m e)
    with neg PFloat have "float_value m e < 0"
      by (simp add: float_value_sign)
    moreover have "(0::rat) \<le> of_int n"
      using n by simp
    ultimately show ?thesis
      using PFloat Finite by simp
  qed (use neg PFloat in simp_all)
qed


lemma which_set_num_valid: "int_lt (d mod 100) v \<Longrightarrow> which_set_num d v t = Inr ''valid''"
  by (simp add: which_set_num_def)

lemma which_set_num_raises:
  "\<not> int_lt (d mod 100) v \<Longrightarrow> \<not> addable t v \<Longrightarrow> which_set_num d v t = Inl OverflowError"
  by (simp add: which_set_num_def num_add_not_addable)

lemma label_of_addable:
  assumes "addable t v"
  shows "\<exists>r. which_set_num d v t = Inr r \<and> r \<in> {''train'', ''valid'', ''test''}"
proof -
  from assms obtain s where "num_add t v = Inr s"
    using num_add_addable by blast
  then show ?thesis
    by (simp add: which_set_num_def Let_def)
qed

lemma label_or_overflow:
  "(addable t v \<or> int_lt (d mod 100) v \<longrightarrow>
      (\<exists>r. which_set_num d v t = Inr r \<and> r \<in> {''train'', ''valid'', ''test''}))
   \<and> (\<not> addable t v \<and> \<not> int_lt (d mod 100) v \<longrightarrow> which_set_num d v t = Inl OverflowError)"
proof (intro conjI impI)
  assume "addable t v \<or> int_lt (d mod 100) v"
  then show "\<exists>r. which_set_num d v t = Inr r \<and> r \<in> {''train'', ''valid'', ''test''}"
  proof
    assume "addable t v"
    then show ?thesis by (rule label_of_addable)
  next
    assume "int_lt (d mod 100) v"
    then have "which_set_num d v t = Inr ''valid''" by (rule which_set_num_valid)
    then show ?thesis by simp
  qed
next
  assume "\<not> addable t v \<and> \<not> int_lt (d mod 100) v"
  then show "which_set_num d v t = Inl OverflowError"
    by (simp add: which_set_num_raises)
qed

subsection \<open>The float model on known values\<close>

text \<open>
  \<open>0.1 + 0.2\<close> is \<open>0.30000000000000004\<close>; \<open>0.5000000000000001 + 0.5\<close> is \<open>1.0\<close> (a tie,
  rounded to even); \<open>1e308 + 1e308\<close> is infinite; the sum of the least subnormal and half
  of it is twice the least subnormal. \<open>float(2\<^sup>5\<^sup>3 + 1)\<close> is \<open>2\<^sup>5\<^sup>3\<close>; the largest int that
  converts is \<open>2\<^sup>1\<^sup>0\<^sup>2\<^sup>4 - 2\<^sup>9\<^sup>7\<^sup>0 - 1\<close>, to the largest finite float.
\<close>

lemmas float_eval =
  round_double_def float_value_def pow2_def double_overflow_def bit_length.simps
  round_half_even_def float_of_int_def which_set_num_def Let_def

lemma float_add_examples:
  "float_add (Finite 3602879701896397 (- 55)) (Finite 3602879701896397 (- 54)) =
     Finite 5404319552844596 (- 54)"
  "float_add (Finite 4503599627370497 (- 53)) (Finite 1 (- 1)) = Finite 4503599627370496 (- 52)"
  "float_add (Finite 156575653125701 976) (Finite 156575653125701 976) = PosInf"
  "float_add (Finite 1 (- 1074)) (Finite 1 (- 1075)) = Finite 2 (- 1074)"
  by (simp_all add: float_eval)

lemma float_of_int_examples:
  "float_of_int 80 = Inr (Finite 80 0)"
  "float_of_int (2 ^ 53 + 1) = Inr (Finite (2 ^ 52) 1)"
  "float_of_int (2 ^ 1024 - 2 ^ 970 - 1) = Inr (Finite (2 ^ 53 - 1) 971)"
  "float_of_int (2 ^ 1024 - 2 ^ 970) = Inl OverflowError"
  by (simp_all add: float_eval)

lemma not_fits_double: "\<not> fits_double (10 ^ 400)"
  by (simp add: fits_double_def double_overflow_def)

subsection \<open>Results and exceptions\<close>

text \<open>
  C2, as stated, fails at the digest 50 with the validation percentage \<open>0.5\<close> and the
  testing percentage \<open>10\<^sup>4\<^sup>0\<^sup>0\<close>, both non-negative numbers: the first comparison is
  false, and the sum \<open>10\<^sup>4\<^sup>0\<^sup>0 + 0.5\<close> raises OverflowError.
\<close>

theorem which_set_num_overflow_nonneg:
  "which_set_num 50 (PFloat (Finite 1 (- 1))) (PInt (10 ^ 400)) = Inl OverflowError"
proof (rule which_set_num_raises)
  show "\<not> int_lt (50 mod 100) (PFloat (Finite 1 (- 1)))"
    by (simp add: float_value_def pow2_def)
  show "\<not> addable (PInt (10 ^ 400)) (PFloat (Finite 1 (- 1)))"
    unfolding addable.simps by (rule not_fits_double)
qed

text \<open>
  C2, amended. For every integer digest and every pair of non-negative percentages that
  are Python ints or floats, also when their sum exceeds 100: which\_set returns one of
  the three labels, which are pairwise different, if the sum converts no int that does
  not fit a float (an int next to a float is below \<open>2\<^sup>1\<^sup>0\<^sup>2\<^sup>4 - 2\<^sup>9\<^sup>7\<^sup>0\<close>) or the bucket is
  below the validation percentage; otherwise the sum raises OverflowError.
\<close>

theorem which_set_num_label_nonneg:
  assumes "nonneg v" and "nonneg t"
  shows "(addable t v \<or> int_lt (d mod 100) v \<longrightarrow>
            (\<exists>r. which_set_num d v t = Inr r \<and> r \<in> {''train'', ''valid'', ''test''}))
       \<and> (\<not> addable t v \<and> \<not> int_lt (d mod 100) v \<longrightarrow>
            which_set_num d v t = Inl OverflowError)
       \<and> ''train'' \<noteq> ''valid'' \<and> ''train'' \<noteq> ''test'' \<and> ''valid'' \<noteq> ''test''"
  using label_or_overflow [of t v d] by simp

theorem which_set_num_label_nonneg_witness:
  "which_set_num 12310 (PFloat (Finite 21 (- 1))) (PInt 80) = Inr ''valid''
   \<and> which_set_num 12311 (PFloat (Finite 21 (- 1))) (PInt 80) = Inr ''test''
   \<and> which_set_num 12391 (PFloat (Finite 21 (- 1))) (PInt 80) = Inr ''train''
   \<and> which_set_num 12399 (PInt 80) (PInt 70) = Inr ''test''"
proof -
  have h: "nonneg (PFloat (Finite 21 (- 1)))" "nonneg (PInt 80)"
    and k: "nonneg (PInt 80)" "nonneg (PInt 70)"
    by simp_all
  have a: "addable (PInt 80) (PFloat (Finite 21 (- 1)))" "addable (PInt 70) (PInt 80)"
    by (simp_all add: fits_double_def double_overflow_def)
  have "which_set_num 12310 (PFloat (Finite 21 (- 1))) (PInt 80) = Inr ''valid''"
    and "which_set_num 12311 (PFloat (Finite 21 (- 1))) (PInt 80) = Inr ''test''"
    and "which_set_num 12391 (PFloat (Finite 21 (- 1))) (PInt 80) = Inr ''train''"
    and "which_set_num 12399 (PInt 80) (PInt 70) = Inr ''test''"
    by (simp_all add: float_eval)
  then show ?thesis
    using which_set_num_label_nonneg [OF h, of 12310] which_set_num_label_nonneg [OF k, of 12399] a
    by simp
qed

text \<open>
  C9, as stated, fails at the negative digest \<open>-7\<close> with the negative validation
  percentage \<open>-0.5\<close> and the testing percentage \<open>10\<^sup>4\<^sup>0\<^sup>0\<close>: the sum raises OverflowError.
\<close>

theorem which_set_num_overflow_negative:
  "which_set_num (- 7) (PFloat (Finite (- 1) (- 1))) (PInt (10 ^ 400)) = Inl OverflowError"
proof (rule which_set_num_raises)
  show "\<not> int_lt (- 7 mod 100) (PFloat (Finite (- 1) (- 1)))"
    by (simp add: float_value_def pow2_def)
  show "\<not> addable (PInt (10 ^ 400)) (PFloat (Finite (- 1) (- 1)))"
    unfolding addable.simps by (rule not_fits_double)
qed

text \<open>
  C9, amended. which\_set is total beyond the documented range, on percentages that are
  Python ints or floats: for every integer digest, negative ones included, and every pair
  of such percentages, negative, infinite and NaN included, it returns one of the three
  labels if the sum converts no int that does not fit a float or the bucket is below the
  validation percentage, and otherwise the sum raises OverflowError. The bucket lies in
  \<open>[0, 99]\<close>, so with a negative validation percentage the result is never valid.
\<close>

theorem which_set_num_total:
  "(addable t v \<or> int_lt (d mod 100) v \<longrightarrow>
      (\<exists>r. which_set_num d v t = Inr r \<and> r \<in> {''train'', ''valid'', ''test''}))
   \<and> (\<not> addable t v \<and> \<not> int_lt (d mod 100) v \<longrightarrow> which_set_num d v t = Inl OverflowError)
   \<and> 0 \<le> d mod 100 \<and> d mod 100 \<le> 99
   \<and> (negative v \<longrightarrow> which_set_num d v t \<noteq> Inr ''valid'')"
proof -
  have "which_set_num d v t \<noteq> Inr ''valid''" if "negative v"
  proof -
    have "\<not> int_lt (d mod 100) v"
      using bucket_range [of d] that by (simp add: int_lt_negative)
    then show ?thesis
      by (auto simp: which_set_num_def Let_def split: sum.splits if_splits)
  qed
  then show ?thesis
    using label_or_overflow [of t v d] bucket_range [of d] by blast
qed

theorem which_set_num_total_witness:
  "which_set_num (- 7) (PInt (- 5)) (PInt 200) = Inr ''test''
   \<and> which_set_num (- 7) (PFloat (Finite (- 1) (- 1))) (PFloat NaN) = Inr ''train''
   \<and> which_set_num (- 7) (PFloat NegInf) (PFloat PosInf) = Inr ''train''
   \<and> which_set_num (- 7) (PFloat (Finite (- 1) (- 1))) (PInt 200) = Inr ''test''
   \<and> (- 7 :: int) mod 100 = 93"
proof -
  have a: "addable (PInt 200) (PInt (- 5))" "addable (PInt 200) (PFloat (Finite (- 1) (- 1)))"
    by (simp_all add: fits_double_def double_overflow_def)
  have "which_set_num (- 7) (PInt (- 5)) (PInt 200) = Inr ''test''"
    and "which_set_num (- 7) (PFloat (Finite (- 1) (- 1))) (PFloat NaN) = Inr ''train''"
    and "which_set_num (- 7) (PFloat NegInf) (PFloat PosInf) = Inr ''train''"
    and "which_set_num (- 7) (PFloat (Finite (- 1) (- 1))) (PInt 200) = Inr ''test''"
    by (simp_all add: float_eval)
  then show ?thesis
    using which_set_num_total [of "PInt 200" "PInt (- 5)" "- 7"]
      which_set_num_total [of "PInt 200" "PFloat (Finite (- 1) (- 1))" "- 7"] a
    by simp
qed

section \<open>Properties of new\_basedir\<close>

lemma rfind_absent: "c \<notin> set p \<Longrightarrow> rfind p c = - 1"
  by (induction p) (auto simp: Let_def)

lemma rfind_last_occurrence: "c \<notin> set name \<Longrightarrow> rfind (dir @ c # name) c = int (length dir)"
  by (induction dir) (auto simp: Let_def rfind_absent)

lemma path_split_tail_prefixed:
  "sep \<notin> set name \<Longrightarrow> snd (path_split (dir @ sep # name)) = name"
proof -
  assume "sep \<notin> set name"
  then have "rfind (dir @ sep # name) sep = int (length dir)"
    by (rule rfind_last_occurrence)
  moreover have "nat (int (length dir) + 1) = Suc (length dir)"
    by simp
  ultimately show ?thesis
    by (simp add: path_split_def Let_def)
qed

lemma path_split_tail_plain:
  "sep \<notin> set name \<Longrightarrow> snd (path_split name) = name"
  by (simp add: path_split_def Let_def rfind_absent)

text \<open>
  Every file name has the shape the theorem below assumes: the text after the last
  separator contains no separator.
\<close>

lemma filename_decomposition:
  "\<exists>dir name. sep \<notin> set name \<and> (filename = name \<or> filename = dir @ sep # name)"
proof (cases "sep \<in> set filename")
  case False
  then show ?thesis by blast
next
  case True
  then have "sep \<in> set (rev filename)" by simp
  then obtain ys zs where "rev filename = ys @ sep # zs" and "sep \<notin> set ys"
    by (meson split_list_first)
  then have "filename = rev zs @ sep # rev ys" and "sep \<notin> set (rev ys)"
    by (simp_all add: rev_swap)
  then show ?thesis by blast
qed

text \<open>
  C10. For every file name and base directory, new\_basedir is the path join of the base
  directory with the final path component of the file name, the text after its last
  separator: every file name is either such a component \<open>name\<close> alone or
  \<open>dir/name\<close>, and in both cases the result is the join of the base directory with
  \<open>name\<close>, the same as for \<open>name\<close> alone, so the directory prefix has no effect.
  The join puts one separator between the two unless the base directory is empty or
  already ends with one.
\<close>

theorem new_basedir_final_component:
  assumes "sep \<notin> set name" and "filename = name \<or> filename = dir @ sep # name"
  shows "new_basedir filename basedir = path_join basedir [name]
       \<and> new_basedir filename basedir = new_basedir name basedir
       \<and> path_join basedir [name] =
           (if basedir = [] \<or> last basedir = sep then basedir @ name else basedir @ sep # name)"
proof -
  have tail: "snd (path_split filename) = name"
    using assms path_split_tail_prefixed path_split_tail_plain by blast
  have "startswith name sep = False"
    using assms(1) by (cases name) (auto simp: startswith_def)
  moreover have "endswith basedir sep = (basedir \<noteq> [] \<and> last basedir = sep)"
    by (cases basedir rule: rev_cases) (auto simp: endswith_def)
  ultimately have "path_join basedir [name] =
      (if basedir = [] \<or> last basedir = sep then basedir @ name else basedir @ sep # name)"
    by (auto simp: path_join_def join_step_def)
  then show ?thesis
    using tail assms(1) by (simp add: new_basedir_def path_split_tail_plain)
qed

theorem new_basedir_final_component_witness:
  "new_basedir (str ''data/raw/a.wav'') (str ''_workdir/x'') = str ''_workdir/x/a.wav''
   \<and> new_basedir (str ''a.wav'') (str ''_workdir/x'') = str ''_workdir/x/a.wav''
   \<and> new_basedir (str ''data//'') (str ''out/'') = str ''out/''"
proof -
  have n: "sep \<notin> set (str ''a.wav'')" "sep \<notin> set (str '''')" by (simp_all add: sep_def str_def)
  have f: "str ''data/raw/a.wav'' = str ''a.wav'' \<or> str ''data/raw/a.wav'' = str ''data/raw'' @ sep # str ''a.wav''"
    "str ''a.wav'' = str ''a.wav'' \<or> str ''a.wav'' = [] @ sep # str ''a.wav''"
    "str ''data//'' = str '''' \<or> str ''data//'' = str ''data/'' @ sep # str ''''"
    by (simp_all add: sep_def str_def)
  show ?thesis
    using new_basedir_final_component [OF n(1) f(1), of "str ''_workdir/x''"]
      new_basedir_final_component [OF n(1) f(2), of "str ''_workdir/x''"]
      new_basedir_final_component [OF n(2) f(3), of "str ''out/''"]
    by (simp add: sep_def str_def)
qed

section \<open>Properties of filename\_to\_int\_hash\<close>

lemma length_bytes_of: "length (bytes_of w) = 4"
  by (simp add: bytes_of_def)

lemma length_sha1: "length (sha1 m) = 20"
  by (simp add: sha1_def length_bytes_of split: prod.splits)

lemma hex_char_table: "map hex_char [0..<16] = ''0123456789abcdef''"
  by code_simp

lemma hex_digit_hex_char: "n < 16 \<Longrightarrow> hex_digit (hex_char n) = Some n"
proof -
  assume n: "n < 16"
  have code: "of_char (hex_char n) = (if n < 10 then 48 + n else 87 + n)"
    using n by (simp add: hex_char_def)
  show ?thesis
  proof (cases "n < 10")
    case True
    with code show ?thesis by (simp add: hex_digit_def)
  next
    case False
    with code n show ?thesis by (simp add: hex_digit_def)
  qed
qed

lemma int_digits_hex_byte:
  "int_digits acc (hex_byte b @ rest) = int_digits (acc * 256 + uint b) rest"
proof -
  have "unat b < 256"
    using unsigned_less [of b, where 'a = nat] by simp
  then have hi: "unat b div 16 < 16"
    by simp
  have lo: "unat b mod 16 < 16"
    by simp
  have "unat b div 16 * 16 + unat b mod 16 = unat b"
    by simp
  then have "int (unat b div 16 * 16 + unat b mod 16) = int (unat b)"
    by (simp only:)
  then have "int (unat b div 16) * 16 + int (unat b mod 16) = int (unat b)"
    by (simp only: of_nat_add of_nat_mult of_nat_numeral)
  moreover have "int (unat b) = uint b"
    by simp
  ultimately have eq: "(acc * 16 + int (unat b div 16)) * 16 + int (unat b mod 16) = acc * 256 + uint b"
    by (simp add: algebra_simps)
  have "int_digits acc (hex_byte b @ rest) =
      int_digits ((acc * 16 + int (unat b div 16)) * 16 + int (unat b mod 16)) rest"
    by (simp add: hex_byte_def hex_digit_hex_char [OF hi] hex_digit_hex_char [OF lo])
  then show ?thesis
    by (simp only: eq)
qed

lemma int_digits_hexdigest: "int_digits acc (hexdigest bs) = Inr (be_int acc bs)"
proof (induction bs arbitrary: acc)
  case Nil
  show ?case by (simp add: hexdigest_def)
next
  case (Cons b bs)
  have "hexdigest (b # bs) = hex_byte b @ hexdigest bs"
    by (simp add: hexdigest_def)
  then show ?case
    using Cons.IH [of "acc * 256 + uint b"] by (simp add: int_digits_hex_byte)
qed

lemma int_base16_hexdigest: "bs \<noteq> [] \<Longrightarrow> int_base16 (hexdigest bs) = Inr (be_int 0 bs)"
proof -
  assume "bs \<noteq> []"
  then have "hexdigest bs \<noteq> []"
    by (cases bs) (simp_all add: hexdigest_def hex_byte_def)
  then show ?thesis
    by (simp add: int_base16_def int_digits_hexdigest)
qed

lemma be_int_nonneg: "0 \<le> acc \<Longrightarrow> 0 \<le> be_int acc bs"
  by (induction bs arbitrary: acc) simp_all

lemma be_int_less: "acc < 256 ^ k \<Longrightarrow> be_int acc bs < 256 ^ (k + length bs)"
proof (induction bs arbitrary: acc k)
  case Nil
  then show ?case by simp
next
  case (Cons b bs)
  have "uint b < 256"
    using uint_bounded [of b] by simp
  moreover have "acc + 1 \<le> 256 ^ k"
    using Cons.prems by simp
  then have "(acc + 1) * 256 \<le> 256 ^ k * 256"
    by (rule mult_right_mono) simp
  ultimately have "acc * 256 + uint b < 256 ^ Suc k"
    by (simp add: algebra_simps)
  from Cons.IH [OF this] show ?case by simp
qed

lemma utf8_char_ok: "\<not> is_surrogate c \<Longrightarrow> \<exists>bs. utf8_char c = Inr bs"
  by (simp add: utf8_char_def)

lemma utf8_char_surrogate: "is_surrogate c \<Longrightarrow> utf8_char c = Inl UnicodeEncodeError"
  by (simp add: utf8_char_def is_surrogate_def)

lemma encode_utf8_ok: "\<forall>c\<in>set s. \<not> is_surrogate c \<Longrightarrow> \<exists>bs. encode_utf8 s = Inr bs"
proof (induction s)
  case Nil
  show ?case by simp
next
  case (Cons c cs)
  then obtain b r where "utf8_char c = Inr b" and "encode_utf8 cs = Inr r"
    using utf8_char_ok [of c] by auto
  then show ?case by simp
qed

lemma encode_utf8_surrogate:
  "\<exists>c\<in>set s. is_surrogate c \<Longrightarrow> encode_utf8 s = Inl UnicodeEncodeError"
proof (induction s)
  case Nil
  then show ?case by simp
next
  case (Cons c cs)
  show ?case
  proof (cases "is_surrogate c")
    case True
    then show ?thesis by (simp add: utf8_char_surrogate)
  next
    case False
    then obtain b where b: "utf8_char c = Inr b"
      using utf8_char_ok by blast
    from False Cons.prems have "\<exists>c\<in>set cs. is_surrogate c" by simp
    then have "encode_utf8 cs = Inl UnicodeEncodeError" by (rule Cons.IH)
    with b show ?thesis by simp
  qed
qed


subsection \<open>Known answers\<close>

text \<open>
  The model of SHA-1 reproduces the digests of FIPS 180's two example messages, the
  second of which takes two blocks. The rewrite rules below evaluate a hash with the
  simplifier, reducing every intermediate word modulo \<open>2\<^sup>3\<^sup>2\<close>.
\<close>

lemma norm32_numeral: "norm32 (numeral k) = word_of_int (take_bit 32 (numeral k))"
proof -
  have "take_bit LENGTH(32) (take_bit 32 x) = take_bit LENGTH(32) x" for x :: int
    by simp
  then have "(word_of_int (take_bit 32 (numeral k)) :: word32) = word_of_int (numeral k)"
    unfolding word_of_int_eq_iff by (simp only:)
  then show ?thesis
    by (simp add: norm32_def)
qed

lemma norm32_zero: "norm32 0 = 0" and norm32_one: "norm32 1 = 1"
  by (simp_all add: norm32_def)

lemma rounds_step:
  "rounds i (w # ws) (a, b, c, d, e) =
     rounds (i + 1) ws
       (norm32 (rotl 5 a + sha1_f i b c d + e + sha1_k i + w), a, norm32 (rotl 30 b), c, d)"
  by (simp add: norm32_def)

lemma schedule_numeral:
  "schedule (numeral k) w =
     norm32 (next_word w) # schedule (pred_numeral k) (tl w @ [norm32 (next_word w)])"
  by (simp add: numeral_eq_Suc norm32_def)

lemma compress_step:
  "compress (h0, h1, h2, h3, h4) block =
     (case rounds 0 (expand (words_of block)) (h0, h1, h2, h3, h4) of
        (a, b, c, d, e) \<Rightarrow>
          (norm32 (h0 + a), norm32 (h1 + b), norm32 (h2 + c), norm32 (h3 + d), norm32 (h4 + e)))"
  by (simp add: norm32_def)

lemma replicate_numeral: "replicate (numeral k) x = x # replicate (pred_numeral k) x"
  by (simp add: numeral_eq_Suc)

lemmas sha1_eval =
  sha1_def sha1_init_def sha1_pad_def be64_def replicate_numeral sha1_blocks.simps
  expand_def schedule_numeral next_word_def rotl_def sha1_f_def sha1_k_def bytes_of_def
  rounds.simps(1) rounds_step compress_step norm32_numeral norm32_zero norm32_one

lemma sha1_abc:
  "sha1 [0x61, 0x62, 0x63] =
     [0xa9, 0x99, 0x3e, 0x36, 0x47, 0x06, 0x81, 0x6a, 0xba, 0x3e,
      0x25, 0x71, 0x78, 0x50, 0xc2, 0x6c, 0x9c, 0xd0, 0xd8, 0x9d]"
  by (simp add: sha1_eval del: rounds.simps(2) compress.simps)

lemma sha1_two_blocks:
  "sha1
     [97, 98, 99, 100, 98, 99, 100, 101, 99, 100, 101, 102, 100, 101, 102, 103, 101, 102,
     103, 104, 102, 103, 104, 105, 103, 104, 105, 106, 104, 105, 106, 107, 105, 106, 107,
     108, 106, 107, 108, 109, 107, 108, 109, 110, 108, 109, 110, 111, 109, 110, 111, 112,
     110, 111, 112, 113] =
     [0x84, 0x98, 0x3e, 0x44, 0x1c, 0x3b, 0xd2, 0x6e, 0xba, 0xae,
      0x4a, 0xa1, 0xf9, 0x51, 0x29, 0xe5, 0xe5, 0x46, 0x70, 0xf1]"
  by (simp add: sha1_eval del: rounds.simps(2) compress.simps)

lemma encode_utf8_examples:
  "encode_utf8 (str ''abc'') = Inr [0x61, 0x62, 0x63]"
  "encode_utf8 [0xE9, 0x20AC, 0x1F600] = Inr [0xC3, 0xA9, 0xE2, 0x82, 0xAC, 0xF0, 0x9F, 0x98, 0x80]"
  by (simp_all add: str_def utf8_char_def is_surrogate_def)

lemma filename_to_int_hash_abc:
  "filename_to_int_hash (str ''abc'') = Inr 968236873715988614170569073515315707566766479517"
  by (simp add: filename_to_int_hash_def encode_utf8_examples(1) sha1_abc int_base16_hexdigest)

subsection \<open>The range of the digest\<close>

text \<open>
  An identifier with a surrogate code point has no digest: the encoding step raises.
\<close>

lemma filename_to_int_hash_raises:
  "\<exists>c\<in>set s. is_surrogate c \<Longrightarrow> filename_to_int_hash s = Inl UnicodeEncodeError"
  by (simp add: filename_to_int_hash_def encode_utf8_surrogate)

text \<open>
  C6, as stated, fails at the one-character identifier \<open>U+DC80\<close>, the code point a
  file name with the undecodable byte \<open>0x80\<close> has in Python: filename\_to\_int\_hash
  raises UnicodeEncodeError there and returns no integer.
\<close>

theorem filename_to_int_hash_surrogate: "filename_to_int_hash [0xDC80] = Inl UnicodeEncodeError"
  by (simp add: filename_to_int_hash_def utf8_char_def is_surrogate_def)

text \<open>
  C6, amended. For every identifier string without a surrogate code point,
  filename\_to\_int\_hash returns an integer in \<open>[0, 2\<^sup>1\<^sup>6\<^sup>0)\<close>: the 20 bytes of the SHA-1
  hash of the identifier's UTF-8 bytes, read as a big-endian number. The digest fed to
  which\_set is thus non-negative and its bucket lies in \<open>[0, 99]\<close>.
\<close>

theorem filename_to_int_hash_range:
  assumes "\<forall>c\<in>set ident. \<not> is_surrogate c"
  shows "\<exists>bs n. encode_utf8 ident = Inr bs \<and> filename_to_int_hash ident = Inr n
           \<and> n = be_int 0 (sha1 bs) \<and> length (sha1 bs) = 20
           \<and> 0 \<le> n \<and> n < 2 ^ 160 \<and> 0 \<le> n mod 100 \<and> n mod 100 \<le> 99"
proof -
  from assms obtain bs where bs: "encode_utf8 ident = Inr bs"
    using encode_utf8_ok by blast
  define n where "n = be_int 0 (sha1 bs)"
  have "sha1 bs \<noteq> []"
    using length_sha1 [of bs] by auto
  then have "filename_to_int_hash ident = Inr n"
    by (simp add: filename_to_int_hash_def bs n_def int_base16_hexdigest)
  moreover have "0 \<le> n"
    by (simp add: n_def be_int_nonneg)
  moreover have "n < 2 ^ 160"
  proof -
    have "be_int 0 (sha1 bs) < 256 ^ (0 + length (sha1 bs))"
      by (rule be_int_less) simp
    then show ?thesis
      by (simp add: n_def length_sha1)
  qed
  moreover have "0 \<le> n mod 100 \<and> n mod 100 \<le> 99"
    by (rule bucket_range)
  ultimately show ?thesis
    using bs n_def length_sha1 by blast
qed

theorem filename_to_int_hash_range_witness:
  "filename_to_int_hash (str ''abc'') = Inr 968236873715988614170569073515315707566766479517
   \<and> (0::int) \<le> 968236873715988614170569073515315707566766479517
   \<and> (968236873715988614170569073515315707566766479517::int) < 2 ^ 160
   \<and> (968236873715988614170569073515315707566766479517::int) mod 100 = 17"
proof -
  have "\<forall>c\<in>set (str ''abc''). \<not> is_surrogate c"
    by (simp add: str_def is_surrogate_def)
  from filename_to_int_hash_range [OF this] show ?thesis
    by (simp add: filename_to_int_hash_abc)
qed

end
